theory Spec2Isabelle
  imports Main "HOL-Library.AList"
begin

section \<open>Events (logcabin/event.py)\<close>

subsection \<open>Values carried by an event\<close>

text \<open>
  The timestamp of an event is a naive UTC \<^verbatim>\<open>datetime.datetime\<close> (the value of
  \<^verbatim>\<open>datetime.utcnow()\<close>): seven non-negative integer components and no time zone.
\<close>

record datetime =
  year :: nat
  month :: nat
  day :: nat
  hour :: nat
  minute :: nat
  second :: nat
  microsecond :: nat

text \<open>
  The dynamically typed values an event field holds. \<open>VAttr name\<close> is the object that
  attribute access finds on the class \<^verbatim>\<open>Event(dict)\<close> under \<open>name\<close>: a bound method
  such as \<^verbatim>\<open>e.add_tag\<close> or \<^verbatim>\<open>e.keys\<close>, or another class-level object. Nested
  mappings are left out.
\<close>

datatype pyvalue =
    VNone
  | VBool bool
  | VInt int
  | VStr string
  | VList "pyvalue list"
  | VTime datetime
  | VAttr string

datatype pyerror =
    KeyError
  | TypeError
  | IndexError
  | AttributeError
  | ValueError
  | NameError
  | SyntaxError

text \<open>
  \<^verbatim>\<open>class Event(dict)\<close>: a dictionary from field names to values, kept as an association
  list with \<open>map_of\<close> for lookup and \<open>AList.update\<close> for item assignment.
\<close>

type_synonym event = "(string \<times> pyvalue) list"

text \<open>\<^verbatim>\<open>dict.get(k, d)\<close>; \<^verbatim>\<open>dict.get(k)\<close> is \<open>dict_get e k VNone\<close>.\<close>

definition dict_get :: "event \<Rightarrow> string \<Rightarrow> pyvalue \<Rightarrow> pyvalue" where
  "dict_get e k d = (case map_of e k of None \<Rightarrow> d | Some v \<Rightarrow> v)"

text \<open>
  \<^verbatim>\<open>Event.__init__\<close>: the timestamp is stored first, then the constructor's keyword
  arguments are stored in order (and may overwrite it). The clock reading is an argument.
\<close>

definition Event_init :: "datetime \<Rightarrow> (string \<times> pyvalue) list \<Rightarrow> event" where
  "Event_init now kwargs =
     foldl (\<lambda>e kv. AList.update (fst kv) (snd kv) e) [(''timestamp'', VTime now)] kwargs"

text \<open>\<^verbatim>\<open>Event.tags\<close> (a property): \<^verbatim>\<open>self.get('tags', [])\<close>.\<close>

definition tags :: "event \<Rightarrow> pyvalue" where
  "tags e = dict_get e ''tags'' (VList [])"

text \<open>
  \<^verbatim>\<open>Event.add_tag\<close>: \<^verbatim>\<open>self.setdefault('tags', []).append(value)\<close>. A stored value that
  is not a list has no \<^verbatim>\<open>append\<close>.
\<close>

definition add_tag :: "event \<Rightarrow> pyvalue \<Rightarrow> pyerror + event" where
  "add_tag e v =
     (case map_of e ''tags'' of
        None \<Rightarrow> Inr (AList.update ''tags'' (VList [v]) e)
      | Some (VList l) \<Rightarrow> Inr (AList.update ''tags'' (VList (l @ [v])) e)
      | Some _ \<Rightarrow> Inl AttributeError)"

text \<open>\<^verbatim>\<open>Event.__getattr__\<close>: \<^verbatim>\<open>self.get(k)\<close>, the hook Python calls when ordinary
  attribute lookup has failed.\<close>

definition Event_getattr :: "event \<Rightarrow> string \<Rightarrow> pyvalue" where
  "Event_getattr e k = dict_get e k VNone"

text \<open>
  The names ordinary attribute lookup finds on an \<^verbatim>\<open>Event\<close> before the hook is tried:
  what the class body of \<^verbatim>\<open>Event\<close> defines, and what it inherits from the built-in
  \<^verbatim>\<open>dict\<close> of Python 2.7 (the source is Python 2: implicit relative imports in flow.py).
  The property \<^verbatim>\<open>tags\<close> is handled apart.
\<close>

definition event_methods :: "string list" where
  "event_methods =
     [''add_tag'', ''to_json'', ''format'', ''__init__'', ''__getattr__'', ''__repr__'',
      ''__dict__'', ''__module__'', ''__weakref__'', ''__doc__'']"

definition dict_methods :: "string list" where
  "dict_methods =
     [''clear'', ''copy'', ''fromkeys'', ''get'', ''has_key'', ''items'', ''iteritems'',
      ''iterkeys'', ''itervalues'', ''keys'', ''pop'', ''popitem'', ''setdefault'', ''update'',
      ''values'', ''viewitems'', ''viewkeys'', ''viewvalues'',
      ''__class__'', ''__cmp__'', ''__contains__'', ''__delattr__'', ''__delitem__'',
      ''__eq__'', ''__format__'', ''__ge__'', ''__getattribute__'', ''__getitem__'',
      ''__gt__'', ''__hash__'', ''__iter__'', ''__le__'', ''__len__'', ''__lt__'', ''__ne__'',
      ''__new__'', ''__reduce__'', ''__reduce_ex__'', ''__setattr__'', ''__setitem__'',
      ''__sizeof__'', ''__str__'', ''__subclasshook__'']"

definition class_attrs :: "string list" where
  "class_attrs = event_methods @ dict_methods"

text \<open>
  The object found under a class attribute name. \<^verbatim>\<open>__hash__\<close> is \<^verbatim>\<open>None\<close> (a
  \<^verbatim>\<open>dict\<close> is unhashable) and so is \<^verbatim>\<open>__weakref__\<close>; \<^verbatim>\<open>__doc__\<close> is the docstring of the
  class and \<^verbatim>\<open>__module__\<close> the name of its module. \<^verbatim>\<open>__dict__\<close> is the instance
  dictionary, which is empty; it stays an opaque \<open>VAttr\<close> whose truth value is false (see
  \<open>truthy\<close>). Every other name is a bound method or the class and stays opaque.
\<close>

definition class_attr_value :: "string \<Rightarrow> pyvalue" where
  "class_attr_value k =
     (if k = ''__hash__'' \<or> k = ''__weakref__'' then VNone
      else if k = ''__doc__'' then
        VStr (''An event.'' @ [CHR 0x0A, CHR 0x0A] @
              ''    This is the basic unit of communication in logcabin.'' @ [CHR 0x0A] @
              ''    '')
      else if k = ''__module__'' then VStr ''logcabin.event''
      else VAttr k)"

text \<open>
  Attribute access \<^verbatim>\<open>e.k\<close> on an event, in Python's order: the property \<^verbatim>\<open>tags\<close> of
  the class, then the other class attributes, and only when those fail the hook
  \<^verbatim>\<open>Event.__getattr__\<close>. (The instance dictionary of an event stays empty: the code
  stores fields as items, never as attributes.)
\<close>

definition attribute_access :: "event \<Rightarrow> string \<Rightarrow> pyerror + pyvalue" where
  "attribute_access e k =
     (if k = ''tags'' then Inr (tags e)
      else if k \<in> set class_attrs then Inr (class_attr_value k)
      else Inr (Event_getattr e k))"

subsection \<open>JSON serialisation\<close>

text \<open>Decimal digits and zero padding, as \<^verbatim>\<open>%0wd\<close> prints a non-negative integer.\<close>

definition digit_char :: "nat \<Rightarrow> char" where
  "digit_char d = ''0123456789'' ! d"

function dec :: "nat \<Rightarrow> string" where
  "dec n = (if n < 10 then [digit_char n] else dec (n div 10) @ [digit_char (n mod 10)])"
  by pat_completeness auto
termination
  by (relation "measure id") auto

declare dec.simps [simp del]

definition pad :: "nat \<Rightarrow> nat \<Rightarrow> string" where
  "pad w n = replicate (w - length (dec n)) (CHR ''0'') @ dec n"

text \<open>
  \<^verbatim>\<open>datetime.isoformat()\<close> of a naive datetime: \<^verbatim>\<open>%04d-%02d-%02dT%02d:%02d:%02d\<close>, followed
  by \<^verbatim>\<open>.%06d\<close> only when the microsecond component is not zero.
\<close>

definition isoformat :: "datetime \<Rightarrow> string" where
  "isoformat t =
     pad 4 (year t) @ ''-'' @ pad 2 (month t) @ ''-'' @ pad 2 (day t) @ ''T'' @
     pad 2 (hour t) @ '':'' @ pad 2 (minute t) @ '':'' @ pad 2 (second t) @
     (if microsecond t = 0 then [] else ''.'' @ pad 6 (microsecond t))"

text \<open>The JSON document \<^verbatim>\<open>json.dumps\<close> writes, as a tree; its text is the library's.\<close>

datatype json =
    JNull
  | JBool bool
  | JNum int
  | JStr string
  | JArr "json list"
  | JObj "(string \<times> json) list"

text \<open>
  \<^verbatim>\<open>JSONEncoder.default\<close>, called for a value the standard encoder does not know: a
  datetime becomes its \<^verbatim>\<open>isoformat()\<close> string, anything else goes to the base class,
  which raises \<^verbatim>\<open>TypeError\<close>.
\<close>

definition JSONEncoder_default :: "pyvalue \<Rightarrow> pyerror + string" where
  "JSONEncoder_default obj =
     (case obj of VTime t \<Rightarrow> Inr (isoformat t) | _ \<Rightarrow> Inl TypeError)"

fun encode :: "pyvalue \<Rightarrow> pyerror + json"
and encode_list :: "pyvalue list \<Rightarrow> pyerror + json list"
where
  "encode VNone = Inr JNull"
| "encode (VBool b) = Inr (JBool b)"
| "encode (VInt i) = Inr (JNum i)"
| "encode (VStr s) = Inr (JStr s)"
| "encode (VList l) = (case encode_list l of Inl err \<Rightarrow> Inl err | Inr js \<Rightarrow> Inr (JArr js))"
| "encode (VTime t) =
     (case JSONEncoder_default (VTime t) of Inl err \<Rightarrow> Inl err | Inr s \<Rightarrow> Inr (JStr s))"
| "encode (VAttr a) =
     (case JSONEncoder_default (VAttr a) of Inl err \<Rightarrow> Inl err | Inr s \<Rightarrow> Inr (JStr s))"
| "encode_list [] = Inr []"
| "encode_list (v # vs) =
     (case encode v of
        Inl err \<Rightarrow> Inl err
      | Inr j \<Rightarrow> (case encode_list vs of Inl err \<Rightarrow> Inl err | Inr js \<Rightarrow> Inr (j # js)))"



subsection \<open>String formatting\<close>











section \<open>Conditions (logcabin/flow.py)\<close>

subsection \<open>The event view\<close>

text \<open>\<^verbatim>\<open>hasattr(d, k)\<close>: whether \<^verbatim>\<open>getattr(d, k)\<close> returns without raising.\<close>

definition hasattr :: "event \<Rightarrow> string \<Rightarrow> bool" where
  "hasattr d k = (case attribute_access d k of Inl err \<Rightarrow> False | Inr v \<Rightarrow> True)"

text \<open>
  The two methods of the view. \<^verbatim>\<open>DefaultDictProxy.__getitem__\<close> is item access
  \<^verbatim>\<open>DefaultDictProxy(d)[k]\<close>. \<^verbatim>\<open>DefaultDictProxy.__getattr__\<close> (\<^verbatim>\<open>return self[k]\<close>) is the hook
  Python calls for an attribute name that ordinary lookup does not find on the view itself.
\<close>

definition proxy_getitem :: "event \<Rightarrow> string \<Rightarrow> pyerror + pyvalue" where
  "proxy_getitem d k =
     (if hasattr d k then attribute_access d k else Inr (dict_get d k VNone))"

definition proxy_getattr :: "event \<Rightarrow> string \<Rightarrow> pyerror + pyvalue" where
  "proxy_getattr d k = proxy_getitem d k"

text \<open>
  The names ordinary lookup does find on the view, so that the hook is never asked for
  them: the instance attribute \<^verbatim>\<open>d\<close> that \<^verbatim>\<open>__init__\<close> stores, what the class body of
  \<^verbatim>\<open>DefaultDictProxy\<close> defines, and what a new-style class has from \<^verbatim>\<open>object\<close>.
\<close>

definition proxy_own_names :: "string list" where
  "proxy_own_names =
     [''d'', ''__init__'', ''__getattr__'', ''__getitem__'', ''__dict__'', ''__module__'',
      ''__weakref__'', ''__doc__'', ''__class__'', ''__delattr__'', ''__format__'',
      ''__getattribute__'', ''__hash__'', ''__new__'', ''__reduce__'', ''__reduce_ex__'',
      ''__repr__'', ''__setattr__'', ''__sizeof__'', ''__str__'', ''__subclasshook__'']"

text \<open>
  Attribute access \<^verbatim>\<open>DefaultDictProxy(d).k\<close>: \<^verbatim>\<open>.d\<close> is the wrapped event itself, another
  name of the view's own is the view's object of that name, and every other name goes
  through the hook.
\<close>

datatype proxy_attr = Wrapped event | Own string | Hook "pyerror + pyvalue"

definition proxy_attribute_access :: "event \<Rightarrow> string \<Rightarrow> proxy_attr" where
  "proxy_attribute_access d k =
     (if k = ''d'' then Wrapped d
      else if k \<in> set proxy_own_names then Own k
      else Hook (proxy_getattr d k))"

subsection \<open>Evaluating a condition\<close>

text \<open>
  Python's truth value of an object, as \<^verbatim>\<open>if\<close> tests it. Of the opaque class-level
  objects only the (empty) instance dictionary is false.
\<close>

fun truthy :: "pyvalue \<Rightarrow> bool" where
  "truthy VNone = False"
| "truthy (VBool b) = b"
| "truthy (VInt i) = (i \<noteq> 0)"
| "truthy (VStr s) = (s \<noteq> [])"
| "truthy (VList l) = (l \<noteq> [])"
| "truthy (VTime t) = True"
| "truthy (VAttr a) = (a \<noteq> ''__dict__'')"

text \<open>\<^verbatim>\<open>==\<close>: structural, with a boolean equal to the integer it is (\<^verbatim>\<open>True == 1\<close>).\<close>

fun as_int :: "pyvalue \<Rightarrow> pyvalue" where
  "as_int (VBool b) = VInt (if b then 1 else 0)"
| "as_int (VList l) = VList (map as_int l)"
| "as_int v = v"

definition py_eq :: "pyvalue \<Rightarrow> pyvalue \<Rightarrow> bool" where
  "py_eq a b = (as_int a = as_int b)"

fun is_substring :: "string \<Rightarrow> string \<Rightarrow> bool" where
  "is_substring t [] = (t = [])"
| "is_substring t (c # s) = (take (length t) (c # s) = t \<or> is_substring t s)"

text \<open>\<^verbatim>\<open>a in b\<close>: membership in a list, substring of a string, an error elsewhere.\<close>

definition py_in :: "pyvalue \<Rightarrow> pyvalue \<Rightarrow> pyerror + pyvalue" where
  "py_in a b =
     (case b of
        VList l \<Rightarrow> Inr (VBool (list_ex (\<lambda>x. py_eq x a) l))
      | VStr s \<Rightarrow> (case a of VStr t \<Rightarrow> Inr (VBool (is_substring t s)) | _ \<Rightarrow> Inl TypeError)
      | _ \<Rightarrow> Inl TypeError)"

text \<open>
  The code object of a condition string, as an expression tree: names, constants
  (strings, numbers and \<^verbatim>\<open>None\<close>, which Python 2 compiles to a constant),
  \<^verbatim>\<open>not\<close>, \<^verbatim>\<open>and\<close>, \<^verbatim>\<open>or\<close>, \<^verbatim>\<open>==\<close> and \<^verbatim>\<open>in\<close>. In Python 2 the words
  \<^verbatim>\<open>True\<close> and \<^verbatim>\<open>False\<close> are not keywords: they are names, bound in the built-in
  namespace, and compile to a name lookup like any other identifier.
\<close>

datatype expr =
    EName string
  | EConst pyvalue
  | ENot expr
  | EAnd expr expr
  | EOr expr expr
  | EEq expr expr
  | EIn expr expr

definition py_builtins :: "(string \<times> pyvalue) list" where
  "py_builtins = [(''True'', VBool True), (''False'', VBool False)]"

text \<open>
  Name lookup inside \<^verbatim>\<open>eval(code, {}, ev)\<close>: the locals \<^verbatim>\<open>ev\<close> (the event view) are
  asked first, through \<^verbatim>\<open>ev[name]\<close>; only a \<^verbatim>\<open>KeyError\<close> from them sends the lookup on
  to the (empty) globals and the built-in namespace.
\<close>

definition lookup_name :: "event \<Rightarrow> string \<Rightarrow> pyerror + pyvalue" where
  "lookup_name ev n =
     (case proxy_getitem ev n of
        Inl KeyError \<Rightarrow>
          (case map_of py_builtins n of None \<Rightarrow> Inl NameError | Some v \<Rightarrow> Inr v)
      | Inl err \<Rightarrow> Inl err
      | Inr v \<Rightarrow> Inr v)"

fun eval_expr :: "expr \<Rightarrow> event \<Rightarrow> pyerror + pyvalue" where
  "eval_expr (EName n) ev = lookup_name ev n"
| "eval_expr (EConst v) ev = Inr v"
| "eval_expr (ENot a) ev =
     (case eval_expr a ev of Inl err \<Rightarrow> Inl err | Inr v \<Rightarrow> Inr (VBool (\<not> truthy v)))"
| "eval_expr (EAnd a b) ev =
     (case eval_expr a ev of
        Inl err \<Rightarrow> Inl err
      | Inr v \<Rightarrow> if truthy v then eval_expr b ev else Inr v)"
| "eval_expr (EOr a b) ev =
     (case eval_expr a ev of
        Inl err \<Rightarrow> Inl err
      | Inr v \<Rightarrow> if truthy v then Inr v else eval_expr b ev)"
| "eval_expr (EEq a b) ev =
     (case eval_expr a ev of
        Inl err \<Rightarrow> Inl err
      | Inr v \<Rightarrow>
          (case eval_expr b ev of Inl err \<Rightarrow> Inl err | Inr w \<Rightarrow> Inr (VBool (py_eq v w))))"
| "eval_expr (EIn a b) ev =
     (case eval_expr a ev of
        Inl err \<Rightarrow> Inl err
      | Inr v \<Rightarrow> (case eval_expr b ev of Inl err \<Rightarrow> Inl err | Inr w \<Rightarrow> py_in v w))"

text \<open>
  A condition once configured is a callable on the event view. The view holds a reference
  to the event and hands out the event's own bound methods, so a call returns a value or
  raises, and leaves the event in some state: the callable takes the event and returns
  both.
\<close>

type_synonym callable = "event \<Rightarrow> (pyerror + pyvalue) \<times> event"

datatype condition = CondStr string | CondFun callable

text \<open>
  The shared prologue of \<^verbatim>\<open>Switch.__call__\<close> and \<^verbatim>\<open>If.__init__\<close>: a string is compiled
  once (\<open>compile_src\<close> is Python's \<^verbatim>\<open>compile(condition, 'string', 'eval')\<close>, an argument here) and
  wrapped as \<^verbatim>\<open>lambda ev: eval(code, {}, ev)\<close>; a callable is kept as it is.
\<close>

definition make_condition ::
  "(string \<Rightarrow> pyerror + expr) \<Rightarrow> condition \<Rightarrow> pyerror + callable" where
  "make_condition compile_src condition =
     (case condition of
        CondStr s \<Rightarrow>
          (case compile_src s of
             Inl err \<Rightarrow> Inl err
           | Inr code \<Rightarrow> Inr (\<lambda>ev. (eval_expr code ev, ev)))
      | CondFun f \<Rightarrow> Inr f)"

text \<open>
  \<open>compile_src\<close> on the sources that are one word: \<^verbatim>\<open>None\<close> is a constant, a keyword of
  Python 2 alone is no expression, every other identifier is a name. Used where a
  concrete compiler is needed for a one-word condition; longer sources are outside of it.
\<close>

definition py_keywords :: "string list" where
  "py_keywords =
     [''and'', ''as'', ''assert'', ''break'', ''class'', ''continue'', ''def'', ''del'',
      ''elif'', ''else'', ''except'', ''exec'', ''finally'', ''for'', ''from'', ''global'',
      ''if'', ''import'', ''in'', ''is'', ''lambda'', ''not'', ''or'', ''pass'', ''print'',
      ''raise'', ''return'', ''try'', ''while'', ''with'', ''yield'']"

definition is_identifier :: "string \<Rightarrow> bool" where
  "is_identifier s =
     (s \<noteq> [] \<and>
      hd s \<in> set ''abcdefghijklmnopqrstuvwxyzABCDEFGHIJKLMNOPQRSTUVWXYZ_'' \<and>
      list_all (\<lambda>c. c \<in> set ''abcdefghijklmnopqrstuvwxyzABCDEFGHIJKLMNOPQRSTUVWXYZ_0123456789'') s)"

definition compile_identifier :: "string \<Rightarrow> pyerror + expr" where
  "compile_identifier s =
     (if is_identifier s \<and> s \<notin> set py_keywords then
        Inr (if s = ''None'' then EConst VNone else EName s)
      else Inl SyntaxError)"

section \<open>Stages and their wiring (logcabin/flow.py)\<close>

subsection \<open>Queues\<close>

text \<open>
  A reference to a queue as the stages hold it: Python's \<^verbatim>\<open>None\<close>, a queue of the
  store (by its number), or a \<^verbatim>\<open>BroadcastQueue\<close> over other references.
\<close>

datatype qref = QNone | Q nat | Broadcast "qref list"

type_synonym queues = "nat \<Rightarrow> event list"

text \<open>
  Modelled from the spec: \<^verbatim>\<open>Queue.put\<close> and \<^verbatim>\<open>BroadcastQueue.put\<close> (util.py and gevent are
  not among the sources). A queue is a FIFO, so \<open>put\<close> appends at the end; a
  \<^verbatim>\<open>BroadcastQueue\<close> "on each put, enqueues the same event onto every underlying queue".
  \<^verbatim>\<open>None\<close> has no \<^verbatim>\<open>put\<close>. Capacity and blocking are left out. The result is the error
  raised, if any, and the store as the call leaves it.
\<close>

fun put :: "qref \<Rightarrow> event \<Rightarrow> queues \<Rightarrow> pyerror option \<times> queues"
and put_all :: "qref list \<Rightarrow> event \<Rightarrow> queues \<Rightarrow> pyerror option \<times> queues"
where
  "put QNone e qs = (Some AttributeError, qs)"
| "put (Q n) e qs = (None, qs(n := qs n @ [e]))"
| "put (Broadcast rs) e qs = put_all rs e qs"
| "put_all [] e qs = (None, qs)"
| "put_all (r # rs) e qs =
     (case put r e qs of
        (Some err, qs') \<Rightarrow> (Some err, qs')
      | (None, qs') \<Rightarrow> put_all rs e qs')"

subsection \<open>Stages\<close>

text \<open>
  A stage with its \<^verbatim>\<open>input\<close> and \<^verbatim>\<open>output\<close> attributes (in this order) and, for a
  composite, its children. \<open>Simple\<close> is a leaf \<^verbatim>\<open>SimpleStage\<close>. The cases of a
  \<^verbatim>\<open>Switch\<close> pair a condition with its branch; an \<^verbatim>\<open>If\<close> has one condition and one
  branch. An attribute not yet assigned reads as \<open>QNone\<close>.
\<close>

datatype stage =
    Simple qref qref
  | Fanin qref qref "stage list"
  | Sequence qref qref "stage list"
  | Fanout qref qref "stage list"
  | Switch qref qref "(callable \<times> stage) list"
  | If qref qref callable stage

fun input_of :: "stage \<Rightarrow> qref" where
  "input_of (Simple i out) = i"
| "input_of (Fanin i out ss) = i"
| "input_of (Sequence i out ss) = i"
| "input_of (Fanout i out ss) = i"
| "input_of (Switch i out cs) = i"
| "input_of (If i out c br) = i"

fun output_of :: "stage \<Rightarrow> qref" where
  "output_of (Simple i out) = out"
| "output_of (Fanin i out ss) = out"
| "output_of (Sequence i out ss) = out"
| "output_of (Fanout i out ss) = out"
| "output_of (Switch i out cs) = out"
| "output_of (If i out c br) = out"

text \<open>
  Modelled from the spec: \<^verbatim>\<open>SimpleStage.setup\<close> (common.py is not among the sources).
  "Allocates this stage's input queue, records output = outputQueue, returns the new input
  queue. Idempotent: repeated calls return the same queue." \<open>n\<close> is the number of the next
  unused queue of the store; the result is the input queue and the next unused number.
\<close>

definition SimpleStage_setup :: "qref \<Rightarrow> nat \<Rightarrow> qref \<times> nat" where
  "SimpleStage_setup i n = (if i = QNone then (Q n, Suc n) else (i, n))"

text \<open>
  \<^verbatim>\<open>setup(q)\<close> of every kind of stage: the value the call returns (\<open>QNone\<close> for a method
  that ends without \<^verbatim>\<open>return\<close>), the stage as the call leaves it, and the next unused
  queue number.
  \<^item> \<^verbatim>\<open>Fanin.setup\<close>: \<^verbatim>\<open>self.output = q\<close>, then \<^verbatim>\<open>s.setup(self.output)\<close> for each child;
    nothing is returned.
  \<^item> \<^verbatim>\<open>Sequence.setup\<close>: \<^verbatim>\<open>self.output = q\<close>, then \<^verbatim>\<open>q = s.setup(q)\<close> for the children in
    reverse, then \<^verbatim>\<open>self.input = q\<close>; nothing is returned.
  \<^item> \<^verbatim>\<open>Fanout.setup\<close>: \<^verbatim>\<open>self.output = q\<close>, the children's results collected in order,
    \<^verbatim>\<open>self.input = BroadcastQueue(queues)\<close>, which is returned.
  \<^item> \<^verbatim>\<open>Switch.setup\<close>: \<^verbatim>\<open>br.setup(q)\<close> for each case, then \<^verbatim>\<open>SimpleStage.setup\<close>.
  \<^item> \<^verbatim>\<open>If.setup\<close>: \<^verbatim>\<open>self.branch.setup(q)\<close>, then \<^verbatim>\<open>SimpleStage.setup\<close>.
  \<open>setup_each\<close> is the loop over the children in order, \<open>setup_reversed\<close> the loop of
  \<^verbatim>\<open>Sequence.setup\<close> (the later children first), \<open>setup_cases\<close> the loop of
  \<^verbatim>\<open>Switch.setup\<close>.
\<close>

fun stage_setup :: "stage \<Rightarrow> qref \<Rightarrow> nat \<Rightarrow> qref \<times> stage \<times> nat"
and setup_each :: "stage list \<Rightarrow> qref \<Rightarrow> nat \<Rightarrow> qref list \<times> stage list \<times> nat"
and setup_reversed :: "stage list \<Rightarrow> qref \<Rightarrow> nat \<Rightarrow> qref \<times> stage list \<times> nat"
and setup_cases ::
  "(callable \<times> stage) list \<Rightarrow> qref \<Rightarrow> nat \<Rightarrow> (callable \<times> stage) list \<times> nat"
where
  "stage_setup (Simple i out) q n =
     (case SimpleStage_setup i n of (i', n') \<Rightarrow> (i', Simple i' q, n'))"
| "stage_setup (Fanin i out ss) q n =
     (case setup_each ss q n of (rs, ss', n') \<Rightarrow> (QNone, Fanin i q ss', n'))"
| "stage_setup (Sequence i out ss) q n =
     (case setup_reversed ss q n of (q', ss', n') \<Rightarrow> (QNone, Sequence q' q ss', n'))"
| "stage_setup (Fanout i out ss) q n =
     (case setup_each ss q n of
        (rs, ss', n') \<Rightarrow> (Broadcast rs, Fanout (Broadcast rs) q ss', n'))"
| "stage_setup (Switch i out cs) q n =
     (case setup_cases cs q n of
        (cs', n') \<Rightarrow>
          (case SimpleStage_setup i n' of (i', n'') \<Rightarrow> (i', Switch i' q cs', n'')))"
| "stage_setup (If i out c br) q n =
     (case stage_setup br q n of
        (r, br', n') \<Rightarrow>
          (case SimpleStage_setup i n' of (i', n'') \<Rightarrow> (i', If i' q c br', n'')))"
| "setup_each [] q n = ([], [], n)"
| "setup_each (s # ss) q n =
     (case stage_setup s q n of
        (r, s', n') \<Rightarrow>
          (case setup_each ss q n' of (rs, ss', n'') \<Rightarrow> (r # rs, s' # ss', n'')))"
| "setup_reversed [] q n = (q, [], n)"
| "setup_reversed (s # ss) q n =
     (case setup_reversed ss q n of
        (q', ss', n') \<Rightarrow>
          (case stage_setup s q' n' of (r, s', n'') \<Rightarrow> (r, s' # ss', n'')))"
| "setup_cases [] q n = ([], n)"
| "setup_cases ((t, br) # cs) q n =
     (case stage_setup br q n of
        (r, br', n') \<Rightarrow>
          (case setup_cases cs q n' of (cs', n'') \<Rightarrow> ((t, br') # cs', n'')))"

subsection \<open>Configuring a Switch and an If\<close>

text \<open>
  \<^verbatim>\<open>Switch.__call__\<close>: the condition is prepared, a fresh \<^verbatim>\<open>Sequence\<close> is appended to
  \<^verbatim>\<open>self.cases\<close> with it, and the stages declared in the body of the \<^verbatim>\<open>with\<close> become
  the children of that sequence (\<open>body\<close>). The only error is the compiler's.
\<close>

definition Switch_call ::
  "(string \<Rightarrow> pyerror + expr) \<Rightarrow> (callable \<times> stage) list \<Rightarrow> condition \<Rightarrow> stage list \<Rightarrow>
   pyerror + (callable \<times> stage) list" where
  "Switch_call compile_src cases condition body =
     (case make_condition compile_src condition of
        Inl err \<Rightarrow> Inl err
      | Inr c \<Rightarrow> Inr (cases @ [(c, Sequence QNone QNone body)]))"

text \<open>\<^verbatim>\<open>lambda x: True\<close>, and \<^verbatim>\<open>Switch.default\<close>: \<^verbatim>\<open>self(lambda x: True)\<close>.\<close>

definition always_true :: callable where
  "always_true = (\<lambda>x. (Inr (VBool True), x))"

definition Switch_default ::
  "(string \<Rightarrow> pyerror + expr) \<Rightarrow> (callable \<times> stage) list \<Rightarrow> stage list \<Rightarrow>
   pyerror + (callable \<times> stage) list" where
  "Switch_default compile_src cases body =
     Switch_call compile_src cases (CondFun always_true) body"

text \<open>
  A \<^verbatim>\<open>with Switch() as case:\<close> block: the registrations in textual order, starting from
  \<^verbatim>\<open>self.cases = []\<close>; the first error ends the configuration.
\<close>

datatype registration = Case condition "stage list" | Default "stage list"

fun Switch_register ::
  "(string \<Rightarrow> pyerror + expr) \<Rightarrow> (callable \<times> stage) list \<Rightarrow> registration list \<Rightarrow>
   pyerror + (callable \<times> stage) list" where
  "Switch_register compile_src cases [] = Inr cases"
| "Switch_register compile_src cases (Case condition body # regs) =
     (case Switch_call compile_src cases condition body of
        Inl err \<Rightarrow> Inl err
      | Inr cases' \<Rightarrow> Switch_register compile_src cases' regs)"
| "Switch_register compile_src cases (Default body # regs) =
     (case Switch_default compile_src cases body of
        Inl err \<Rightarrow> Inl err
      | Inr cases' \<Rightarrow> Switch_register compile_src cases' regs)"

definition Switch_config ::
  "(string \<Rightarrow> pyerror + expr) \<Rightarrow> registration list \<Rightarrow> pyerror + stage" where
  "Switch_config compile_src regs =
     (case Switch_register compile_src [] regs of
        Inl err \<Rightarrow> Inl err
      | Inr cases \<Rightarrow> Inr (Switch QNone QNone cases))"

text \<open>\<^verbatim>\<open>If.__init__\<close> followed by the \<^verbatim>\<open>with\<close> block that fills \<^verbatim>\<open>self.branch\<close>.\<close>

definition If_config ::
  "(string \<Rightarrow> pyerror + expr) \<Rightarrow> condition \<Rightarrow> stage list \<Rightarrow> pyerror + stage" where
  "If_config compile_src condition body =
     (case make_condition compile_src condition of
        Inl err \<Rightarrow> Inl err
      | Inr c \<Rightarrow> Inr (If QNone QNone c (Sequence QNone QNone body)))"

subsection \<open>Routing\<close>

text \<open>
  \<^verbatim>\<open>Switch.process\<close>: the cases in order; the first whose condition returns a truthy value
  gets the event on \<^verbatim>\<open>br.input\<close> and the result is \<^verbatim>\<open>False\<close>; with none the result is
  \<^verbatim>\<open>True\<close>. An exception of a condition or of \<^verbatim>\<open>put\<close> leaves the method. The result is what
  the call returns or raises, the event and the store as the call leaves them.
\<close>

fun Switch_process ::
  "(callable \<times> stage) list \<Rightarrow> event \<Rightarrow> queues \<Rightarrow> (pyerror + bool) \<times> event \<times> queues" where
  "Switch_process [] event qs = (Inr True, event, qs)"
| "Switch_process ((case_fn, br) # cases) event qs =
     (case case_fn event of
        (Inl err, event') \<Rightarrow> (Inl err, event', qs)
      | (Inr v, event') \<Rightarrow>
          if truthy v then
            (case put (input_of br) event' qs of
               (Some err, qs') \<Rightarrow> (Inl err, event', qs')
             | (None, qs') \<Rightarrow> (Inr False, event', qs'))
          else Switch_process cases event' qs)"

text \<open>\<^verbatim>\<open>If.process\<close>.\<close>

definition If_process ::
  "callable \<Rightarrow> stage \<Rightarrow> event \<Rightarrow> queues \<Rightarrow> (pyerror + bool) \<times> event \<times> queues" where
  "If_process condition branch event qs =
     (case condition event of
        (Inl err, event') \<Rightarrow> (Inl err, event', qs)
      | (Inr v, event') \<Rightarrow>
          if truthy v then
            (case put (input_of branch) event' qs of
               (Some err, qs') \<Rightarrow> (Inl err, event', qs')
             | (None, qs') \<Rightarrow> (Inr False, event', qs'))
          else (Inr True, event', qs))"

section \<open>Vocabulary of the properties\<close>

text \<open>
  \<open>declined cases e\<close>: every condition of \<open>cases\<close>, called in order, returns a value that
  is not truthy; the result is the event as the last call leaves it. \<open>None\<close> when a
  condition accepts or raises.
\<close>

fun declined :: "(callable \<times> stage) list \<Rightarrow> event \<Rightarrow> event option" where
  "declined [] e = Some e"
| "declined ((c, br) # cs) e =
     (case c e of
        (Inl err, e') \<Rightarrow> None
      | (Inr v, e') \<Rightarrow> if truthy v then None else declined cs e')"

text \<open>The condition string \<^verbatim>\<open>kind == "s"\<close>, compiled and wrapped.\<close>

definition kind_is :: "string \<Rightarrow> callable" where
  "kind_is s = (\<lambda>ev. (eval_expr (EEq (EName ''kind'') (EConst (VStr s))) ev, ev))"

text \<open>The clock reading of the docstring examples of event.py.\<close>

definition example_time :: datetime where
  "example_time =
     \<lparr>year = 2013, month = 1, day = 1, hour = 2, minute = 34, second = 56,
      microsecond = 789012\<rparr>"

text \<open>
  A condition configured and called once on the view of \<open>ev\<close>: what the call returns or
  raises (or the configuration error), and the event afterwards.
\<close>

definition evaluate_condition ::
  "(string \<Rightarrow> pyerror + expr) \<Rightarrow> condition \<Rightarrow> event \<Rightarrow> (pyerror + pyvalue) \<times> event" where
  "evaluate_condition compile_src condition ev =
     (case make_condition compile_src condition of
        Inl err \<Rightarrow> (Inl err, ev)
      | Inr c \<Rightarrow> c ev)"

text \<open>
  \<open>registration_compiles\<close>: the registration's condition, when it is a string, is
  accepted by the compiler.
\<close>

fun registration_compiles :: "(string \<Rightarrow> pyerror + expr) \<Rightarrow> registration \<Rightarrow> bool" where
  "registration_compiles compile_src (Case (CondStr s) body) =
     (case compile_src s of Inl err \<Rightarrow> False | Inr code \<Rightarrow> True)"
| "registration_compiles compile_src (Case (CondFun f) body) = True"
| "registration_compiles compile_src (Default body) = True"

text \<open>
  \<^verbatim>\<open>lambda ev: ev.add_tag('seen') or True\<close>: a condition that uses the view to reach the
  event's own method. \<^verbatim>\<open>ev.add_tag\<close> is the bound method \<^verbatim>\<open>Event.add_tag\<close>; the call
  returns \<^verbatim>\<open>None\<close>, so the result is \<^verbatim>\<open>True\<close>.
\<close>

definition tag_then_accept :: callable where
  "tag_then_accept =
     (\<lambda>ev. case add_tag ev (VStr ''seen'') of
             Inl err \<Rightarrow> (Inl err, ev)
           | Inr ev' \<Rightarrow> (Inr (VBool True), ev'))"

text \<open>
  The kinds of stage whose \<^verbatim>\<open>setup\<close> ends with \<^verbatim>\<open>return\<close> (\<^verbatim>\<open>SimpleStage\<close>, and with it
  \<^verbatim>\<open>Switch\<close> and \<^verbatim>\<open>If\<close>, and \<^verbatim>\<open>Fanout\<close>), and the kind \<^verbatim>\<open>Fanin\<close>.
\<close>

fun returns_input :: "stage \<Rightarrow> bool" where
  "returns_input (Fanin i out ss) = False"
| "returns_input (Sequence i out ss) = False"
| "returns_input st = True"

fun is_Fanin :: "stage \<Rightarrow> bool" where
  "is_Fanin (Fanin i out ss) = True"
| "is_Fanin st = False"

text \<open>
  The condition string \<^verbatim>\<open>"x" in message\<close>, compiled and wrapped: on an event without a
  field \<^verbatim>\<open>message\<close> the name is \<^verbatim>\<open>None\<close>, and \<^verbatim>\<open>in\<close> raises \<^verbatim>\<open>TypeError\<close>.
\<close>

definition x_in_message :: callable where
  "x_in_message = (\<lambda>ev. (eval_expr (EIn (EConst (VStr ''x'')) (EName ''message'')) ev, ev))"

text \<open>The method names among the class attributes of an event used in the examples.\<close>

definition method_names :: "string list" where
  "method_names =
     [''add_tag'', ''to_json'', ''format'', ''clear'', ''copy'', ''fromkeys'', ''get'',
      ''has_key'', ''items'', ''iteritems'', ''iterkeys'', ''itervalues'', ''keys'', ''pop'',
      ''popitem'', ''setdefault'', ''update'', ''values'', ''viewitems'', ''viewkeys'',
      ''viewvalues'']"




text \<open>
  The shape of a timestamp string: \<open>matches pat s\<close> when \<open>s\<close> has a decimal digit where
  \<open>pat\<close> has the letter d and the character of \<open>pat\<close> elsewhere. \<open>read_dec\<close> reads a
  string of digits back as a number. \<open>valid_datetime\<close> is the range of the components
  that Python's \<^verbatim>\<open>datetime\<close> enforces.
\<close>

definition is_digit :: "char \<Rightarrow> bool" where
  "is_digit c = (c \<in> set ''0123456789'')"

definition matches :: "string \<Rightarrow> string \<Rightarrow> bool" where
  "matches pat s = list_all2 (\<lambda>p c. if p = CHR ''d'' then is_digit c else c = p) pat s"




section \<open>Properties\<close>

subsection \<open>Routing is first-match\<close>

lemma Switch_process_declined:
  "declined pre e = Some e1 \<Longrightarrow> Switch_process (pre @ rest) e qs = Switch_process rest e1 qs"
proof (induction pre arbitrary: e)
  case Nil
  then show ?case by simp
next
  case (Cons a pre)
  obtain c br where a: "a = (c, br)" by (cases a)
  obtain r e' where ce: "c e = (r, e')" by (cases "c e")
  from Cons.prems a ce obtain v
    where r: "r = Inr v" and nv: "\<not> truthy v" and d: "declined pre e' = Some e1"
    by (cases r) (auto split: if_splits)
  from Cons.IH[OF d] show ?case using a ce r nv by simp
qed

lemma kind_is_eval:
  "kind_is s [(''kind'', VStr t)] = (Inr (VBool (s = t)), [(''kind'', VStr t)])"
  by (auto simp add: kind_is_def lookup_name_def proxy_getitem_def hasattr_def
      attribute_access_def class_attrs_def event_methods_def dict_methods_def
      Event_getattr_def dict_get_def py_eq_def)

lemma declined_None_split:
  "declined cs e = None \<Longrightarrow>
   \<exists>pre c br post e1 r e2.
     cs = pre @ (c, br) # post \<and> declined pre e = Some e1 \<and> c e1 = (r, e2) \<and>
     (case r of Inl err \<Rightarrow> True | Inr v \<Rightarrow> truthy v)"
proof (induction cs arbitrary: e)
  case Nil
  then show ?case by simp
next
  case (Cons a cs)
  obtain c br where a: "a = (c, br)" by (cases a)
  obtain r e' where ce: "c e = (r, e')" by (cases "c e")
  show ?case
  proof (cases "case r of Inl err \<Rightarrow> True | Inr v \<Rightarrow> truthy v")
    case True
    have "a # cs = [] @ (c, br) # cs \<and> declined [] e = Some e \<and> c e = (r, e') \<and>
        (case r of Inl err \<Rightarrow> True | Inr v \<Rightarrow> truthy v)"
      using a ce True by simp
    then show ?thesis by blast
  next
    case False
    then obtain v where r: "r = Inr v" and nv: "\<not> truthy v" by (cases r) simp_all
    from Cons.prems a ce r nv have "declined cs e' = None" by simp
    from Cons.IH[OF this] obtain pre c' br' post e1 r' e2 where
      h: "cs = pre @ (c', br') # post" "declined pre e' = Some e1" "c' e1 = (r', e2)"
         "case r' of Inl err \<Rightarrow> True | Inr v \<Rightarrow> truthy v"
      by blast
    have "a # cs = (a # pre) @ (c', br') # post \<and> declined (a # pre) e = Some e1 \<and>
        c' e1 = (r', e2) \<and> (case r' of Inl err \<Rightarrow> True | Inr v \<Rightarrow> truthy v)"
      using h a ce r nv by simp
    then show ?thesis by blast
  qed
qed

text \<open>
  C1. \<^verbatim>\<open>Switch.process\<close> routes to the first match. When the conditions of the cases
  before \<open>(c, br)\<close> all return a false value and \<open>c\<close> returns a true one, the event is put
  on \<open>br\<close>'s input and, the put succeeding, the result is \<^verbatim>\<open>False\<close>, whatever cases
  follow; when the put raises (the input is \<^verbatim>\<open>None\<close>), \<^verbatim>\<open>process\<close> raises that error
  and returns nothing. When \<open>c\<close> raises, \<^verbatim>\<open>process\<close> raises that error and no queue
  changes. When every condition returns a false value the result is \<^verbatim>\<open>True\<close> and no queue
  changes; and these are all the ways a call can go. \<^verbatim>\<open>If.process\<close> is the same with one
  case. A put on a queue appends the event to it; a put on \<^verbatim>\<open>None\<close> raises
  \<^verbatim>\<open>AttributeError\<close>.
\<close>

theorem Switch_If_first_match:
  "(declined pre e = Some e1 \<and> c e1 = (Inr v, e2) \<and> truthy v \<and>
      put (input_of br) e2 qs = (None, qs')
      \<longrightarrow> Switch_process (pre @ (c, br) # post) e qs = (Inr False, e2, qs')) \<and>
   (declined pre e = Some e1 \<and> c e1 = (Inr v, e2) \<and> truthy v \<and>
      put (input_of br) e2 qs = (Some err, qs')
      \<longrightarrow> Switch_process (pre @ (c, br) # post) e qs = (Inl err, e2, qs')) \<and>
   (declined pre e = Some e1 \<and> c e1 = (Inl err, e2)
      \<longrightarrow> Switch_process (pre @ (c, br) # post) e qs = (Inl err, e2, qs)) \<and>
   (declined cs e = Some e1 \<longrightarrow> Switch_process cs e qs = (Inr True, e1, qs)) \<and>
   (declined cs e = None \<longrightarrow>
      (\<exists>pre c br post e1 r e2.
         cs = pre @ (c, br) # post \<and> declined pre e = Some e1 \<and> c e1 = (r, e2) \<and>
         (case r of Inl err \<Rightarrow> True | Inr v \<Rightarrow> truthy v))) \<and>
   (c e = (Inr v, e2) \<and> truthy v \<and> put (input_of br) e2 qs = (None, qs')
      \<longrightarrow> If_process c br e qs = (Inr False, e2, qs')) \<and>
   (c e = (Inr v, e2) \<and> truthy v \<and> put (input_of br) e2 qs = (Some err, qs')
      \<longrightarrow> If_process c br e qs = (Inl err, e2, qs')) \<and>
   (c e = (Inl err, e2) \<longrightarrow> If_process c br e qs = (Inl err, e2, qs)) \<and>
   (c e = (Inr v, e2) \<and> \<not> truthy v \<longrightarrow> If_process c br e qs = (Inr True, e2, qs)) \<and>
   put (Q n) e2 qs = (None, qs(n := qs n @ [e2])) \<and>
   put QNone e2 qs = (Some AttributeError, qs)"
proof -
  have S1: "declined pre e = Some e1 \<and> c e1 = (Inr v, e2) \<and> truthy v \<and>
      put (input_of br) e2 qs = (None, qs')
      \<longrightarrow> Switch_process (pre @ (c, br) # post) e qs = (Inr False, e2, qs')"
    by (simp add: Switch_process_declined)
  have S2: "declined pre e = Some e1 \<and> c e1 = (Inr v, e2) \<and> truthy v \<and>
      put (input_of br) e2 qs = (Some err, qs')
      \<longrightarrow> Switch_process (pre @ (c, br) # post) e qs = (Inl err, e2, qs')"
    by (simp add: Switch_process_declined)
  have S3: "declined pre e = Some e1 \<and> c e1 = (Inl err, e2)
      \<longrightarrow> Switch_process (pre @ (c, br) # post) e qs = (Inl err, e2, qs)"
    by (simp add: Switch_process_declined)
  have S4: "declined cs e = Some e1 \<longrightarrow> Switch_process cs e qs = (Inr True, e1, qs)"
    using Switch_process_declined[of cs e e1 "[]" qs] by simp
  have S5: "declined cs e = None \<longrightarrow>
      (\<exists>pre c br post e1 r e2.
         cs = pre @ (c, br) # post \<and> declined pre e = Some e1 \<and> c e1 = (r, e2) \<and>
         (case r of Inl err \<Rightarrow> True | Inr v \<Rightarrow> truthy v))"
    using declined_None_split[of cs e] by (rule impI)
  have I1: "c e = (Inr v, e2) \<and> truthy v \<and> put (input_of br) e2 qs = (None, qs')
      \<longrightarrow> If_process c br e qs = (Inr False, e2, qs')"
    by (simp add: If_process_def)
  have I2: "c e = (Inr v, e2) \<and> truthy v \<and> put (input_of br) e2 qs = (Some err, qs')
      \<longrightarrow> If_process c br e qs = (Inl err, e2, qs')"
    by (simp add: If_process_def)
  have I3: "c e = (Inl err, e2) \<longrightarrow> If_process c br e qs = (Inl err, e2, qs)"
    by (simp add: If_process_def)
  have I4: "c e = (Inr v, e2) \<and> \<not> truthy v \<longrightarrow> If_process c br e qs = (Inr True, e2, qs)"
    by (simp add: If_process_def)
  have P1: "put (Q n) e2 qs = (None, qs(n := qs n @ [e2]))" by simp
  have P2: "put QNone e2 qs = (Some AttributeError, qs)" by simp
  from S1 S2 S3 S4 S5 I1 I2 I3 I4 P1 P2 show ?thesis by (intro conjI)
qed

lemma x_in_message_eval:
  "x_in_message [(''kind'', VStr t)] = (Inl TypeError, [(''kind'', VStr t)])"
  by (simp add: x_in_message_def lookup_name_def proxy_getitem_def hasattr_def
      attribute_access_def class_attrs_def event_methods_def dict_methods_def
      Event_getattr_def dict_get_def py_in_def)

text \<open>
  The routing scenario of the spec: a \<^verbatim>\<open>Switch\<close> with cases \<^verbatim>\<open>kind == "A"\<close> and
  \<^verbatim>\<open>kind == "B"\<close>, one leaf in each branch, set up with output queue 0: the branch inputs
  are queues 1 and 2. An event of kind B goes to queue 2, one of kind C passes through.
  The same with a second branch that begins with a \<^verbatim>\<open>Fanin\<close> (its input is \<^verbatim>\<open>None\<close>), and
  with \<^verbatim>\<open>"x" in message\<close> as the second condition: the call raises. And an \<^verbatim>\<open>If\<close> on
  \<^verbatim>\<open>kind == "A"\<close>.
\<close>

theorem Switch_If_first_match_witness:
  "stage_setup
     (Switch QNone QNone
        [(kind_is ''A'', Sequence QNone QNone [Simple QNone QNone]),
         (kind_is ''B'', Sequence QNone QNone [Simple QNone QNone])])
     (Q 0) 1 =
     (Q 3,
      Switch (Q 3) (Q 0)
        [(kind_is ''A'', Sequence (Q 1) (Q 0) [Simple (Q 1) (Q 0)]),
         (kind_is ''B'', Sequence (Q 2) (Q 0) [Simple (Q 2) (Q 0)])], 4) \<and>
   Switch_process
     [(kind_is ''A'', Sequence (Q 1) (Q 0) [Simple (Q 1) (Q 0)]), (kind_is ''B'', Sequence (Q 2) (Q 0) [Simple (Q 2) (Q 0)])]
     [(''kind'', VStr ''B'')] (\<lambda>n. []) =
     (Inr False, [(''kind'', VStr ''B'')], (\<lambda>n. [])(2 := [[(''kind'', VStr ''B'')]])) \<and>
   Switch_process
     [(kind_is ''A'', Sequence (Q 1) (Q 0) [Simple (Q 1) (Q 0)]), (kind_is ''B'', Sequence QNone (Q 0) [Fanin QNone (Q 0) [Simple (Q 2) (Q 0)]])]
     [(''kind'', VStr ''B'')] (\<lambda>n. []) =
     (Inl AttributeError, [(''kind'', VStr ''B'')], (\<lambda>n. [])) \<and>
   Switch_process
     [(kind_is ''A'', Sequence (Q 1) (Q 0) [Simple (Q 1) (Q 0)]), (x_in_message, Sequence (Q 2) (Q 0) [Simple (Q 2) (Q 0)])]
     [(''kind'', VStr ''B'')] (\<lambda>n. []) =
     (Inl TypeError, [(''kind'', VStr ''B'')], (\<lambda>n. [])) \<and>
   Switch_process
     [(kind_is ''A'', Sequence (Q 1) (Q 0) [Simple (Q 1) (Q 0)]), (kind_is ''B'', Sequence (Q 2) (Q 0) [Simple (Q 2) (Q 0)])]
     [(''kind'', VStr ''C'')] (\<lambda>n. []) = (Inr True, [(''kind'', VStr ''C'')], (\<lambda>n. [])) \<and>
   If_process (kind_is ''A'') (Sequence (Q 1) (Q 0) [Simple (Q 1) (Q 0)]) [(''kind'', VStr ''A'')] (\<lambda>n. []) =
     (Inr False, [(''kind'', VStr ''A'')], (\<lambda>n. [])(1 := [[(''kind'', VStr ''A'')]])) \<and>
   If_process (kind_is ''A'') (Sequence QNone (Q 0) [Fanin QNone (Q 0) [Simple (Q 2) (Q 0)]]) [(''kind'', VStr ''A'')] (\<lambda>n. []) =
     (Inl AttributeError, [(''kind'', VStr ''A'')], (\<lambda>n. [])) \<and>
   If_process x_in_message (Sequence (Q 1) (Q 0) [Simple (Q 1) (Q 0)]) [(''kind'', VStr ''A'')] (\<lambda>n. []) =
     (Inl TypeError, [(''kind'', VStr ''A'')], (\<lambda>n. [])) \<and>
   If_process (kind_is ''A'') (Sequence (Q 1) (Q 0) [Simple (Q 1) (Q 0)]) [(''kind'', VStr ''C'')] (\<lambda>n. []) =
     (Inr True, [(''kind'', VStr ''C'')], (\<lambda>n. []))"
proof -
  let ?brA = "Sequence (Q 1) (Q 0) [Simple (Q 1) (Q 0)]"
  let ?brB = "Sequence (Q 2) (Q 0) [Simple (Q 2) (Q 0)]"
  let ?brN = "Sequence QNone (Q 0) [Fanin QNone (Q 0) [Simple (Q 2) (Q 0)]]"
  let ?B = "[(''kind'', VStr ''B'')]"
  let ?C = "[(''kind'', VStr ''C'')]"
  let ?A = "[(''kind'', VStr ''A'')]"
  let ?q = "\<lambda>n::nat. [] :: event list"
  have d1: "declined [(kind_is ''A'', ?brA)] ?B = Some ?B"
    by (simp add: kind_is_eval)
  have c1: "kind_is ''B'' ?B = (Inr (VBool True), ?B)" by (simp add: kind_is_eval)
  have t: "truthy (VBool True)" by simp
  have p1: "put (input_of ?brB) ?B ?q = (None, ?q(2 := [?B]))" by simp
  have pn: "put (input_of ?brN) ?B ?q = (Some AttributeError, ?q)" by simp
  have x1: "x_in_message ?B = (Inl TypeError, ?B)" by (rule x_in_message_eval)
  have d2: "declined [(kind_is ''A'', ?brA), (kind_is ''B'', ?brB)] ?C = Some ?C"
    by (simp add: kind_is_eval)
  have c3: "kind_is ''A'' ?A = (Inr (VBool True), ?A)" by (simp add: kind_is_eval)
  have p3: "put (input_of ?brA) ?A ?q = (None, ?q(1 := [?A]))" by simp
  have pn3: "put (input_of ?brN) ?A ?q = (Some AttributeError, ?q)" by simp
  have x3: "x_in_message ?A = (Inl TypeError, ?A)" by (rule x_in_message_eval)
  have c4: "kind_is ''A'' ?C = (Inr (VBool False), ?C)" by (simp add: kind_is_eval)
  have f: "\<not> truthy (VBool False)" by simp
  note T = Switch_If_first_match
  from T[where pre="[(kind_is ''A'', ?brA)]" and e="?B" and ?e1.0="?B" and c="kind_is ''B''"
      and v="VBool True" and ?e2.0="?B" and br="?brB" and qs="?q"
      and qs'="?q(2 := [?B])" and post="[]"] d1 c1 t p1
  have g1: "Switch_process ([(kind_is ''A'', ?brA)] @ (kind_is ''B'', ?brB) # []) ?B ?q =
     (Inr False, ?B, ?q(2 := [?B]))" by blast
  from T[where pre="[(kind_is ''A'', ?brA)]" and e="?B" and ?e1.0="?B" and c="kind_is ''B''"
      and v="VBool True" and ?e2.0="?B" and br="?brN" and qs="?q"
      and qs'="?q" and post="[]" and err=AttributeError] d1 c1 t pn
  have g2: "Switch_process ([(kind_is ''A'', ?brA)] @ (kind_is ''B'', ?brN) # []) ?B ?q =
     (Inl AttributeError, ?B, ?q)" by blast
  from T[where pre="[(kind_is ''A'', ?brA)]" and e="?B" and ?e1.0="?B" and c="x_in_message"
      and ?e2.0="?B" and br="?brB" and qs="?q" and post="[]" and err=TypeError] d1 x1
  have g3: "Switch_process ([(kind_is ''A'', ?brA)] @ (x_in_message, ?brB) # []) ?B ?q =
     (Inl TypeError, ?B, ?q)" by blast
  from T[where cs="[(kind_is ''A'', ?brA), (kind_is ''B'', ?brB)]" and e="?C" and ?e1.0="?C"
      and qs="?q"] d2
  have g4: "Switch_process [(kind_is ''A'', ?brA), (kind_is ''B'', ?brB)] ?C ?q =
     (Inr True, ?C, ?q)" by blast
  from T[where e="?A" and c="kind_is ''A''" and v="VBool True" and ?e2.0="?A" and br="?brA"
      and qs="?q" and qs'="?q(1 := [?A])"] c3 t p3
  have g5: "If_process (kind_is ''A'') ?brA ?A ?q = (Inr False, ?A, ?q(1 := [?A]))"
    by blast
  from T[where e="?A" and c="kind_is ''A''" and v="VBool True" and ?e2.0="?A" and br="?brN"
      and qs="?q" and qs'="?q" and err=AttributeError] c3 t pn3
  have g6: "If_process (kind_is ''A'') ?brN ?A ?q = (Inl AttributeError, ?A, ?q)"
    by blast
  from T[where e="?A" and c="x_in_message" and ?e2.0="?A" and br="?brA"
      and qs="?q" and err=TypeError] x3
  have g7: "If_process x_in_message ?brA ?A ?q = (Inl TypeError, ?A, ?q)"
    by blast
  from T[where e="?C" and c="kind_is ''A''" and v="VBool False" and ?e2.0="?C" and br="?brA"
      and qs="?q"] c4 f
  have g8: "If_process (kind_is ''A'') ?brA ?C ?q = (Inr True, ?C, ?q)"
    by blast
  have g0: "stage_setup
     (Switch QNone QNone
        [(kind_is ''A'', Sequence QNone QNone [Simple QNone QNone]),
         (kind_is ''B'', Sequence QNone QNone [Simple QNone QNone])])
     (Q 0) 1 =
     (Q 3, Switch (Q 3) (Q 0) [(kind_is ''A'', ?brA), (kind_is ''B'', ?brB)], 4)"
    by (simp add: SimpleStage_setup_def eval_nat_numeral)
  from g0 g1 g2 g3 g4 g5 g6 g7 g8 show ?thesis by simp
qed

text \<open>
  Calls that neither enqueue and return \<^verbatim>\<open>False\<close> nor return \<^verbatim>\<open>True\<close>. A case whose body
  begins with a \<^verbatim>\<open>Fanin\<close>, and one whose body begins with a \<^verbatim>\<open>Sequence\<close>: after
  \<^verbatim>\<open>setup\<close> the branch's input is \<^verbatim>\<open>None\<close>, and for an event the condition accepts
  \<^verbatim>\<open>process\<close> raises \<^verbatim>\<open>AttributeError\<close> with nothing enqueued. And a first condition that
  raises: the event is not routed to the second case, whose condition is true.
\<close>

theorem first_match_raises_counterexample:
  "stage_setup
     (Switch QNone QNone
        [(kind_is ''A'', Sequence QNone QNone [Fanin QNone QNone [Simple QNone QNone]])])
     (Q 0) 1 =
     (Q 2,
      Switch (Q 2) (Q 0)
        [(kind_is ''A'', Sequence QNone (Q 0) [Fanin QNone (Q 0) [Simple (Q 1) (Q 0)]])], 3) \<and>
   Switch_process
     [(kind_is ''A'', Sequence QNone (Q 0) [Fanin QNone (Q 0) [Simple (Q 1) (Q 0)]])]
     [(''kind'', VStr ''A'')] (\<lambda>n. []) =
     (Inl AttributeError, [(''kind'', VStr ''A'')], (\<lambda>n. [])) \<and>
   stage_setup
     (Switch QNone QNone
        [(kind_is ''A'', Sequence QNone QNone [Sequence QNone QNone [Simple QNone QNone]])])
     (Q 0) 1 =
     (Q 2,
      Switch (Q 2) (Q 0)
        [(kind_is ''A'', Sequence QNone (Q 0) [Sequence (Q 1) (Q 0) [Simple (Q 1) (Q 0)]])], 3) \<and>
   Switch_process
     [(kind_is ''A'', Sequence QNone (Q 0) [Sequence (Q 1) (Q 0) [Simple (Q 1) (Q 0)]])]
     [(''kind'', VStr ''A'')] (\<lambda>n. []) =
     (Inl AttributeError, [(''kind'', VStr ''A'')], (\<lambda>n. [])) \<and>
   Switch_process
     [(x_in_message, Sequence (Q 1) (Q 0) [Simple (Q 1) (Q 0)]), (kind_is ''B'', Sequence (Q 2) (Q 0) [Simple (Q 2) (Q 0)])]
     [(''kind'', VStr ''B'')] (\<lambda>n. []) =
     (Inl TypeError, [(''kind'', VStr ''B'')], (\<lambda>n. []))"
  by (simp add: SimpleStage_setup_def numeral_2_eq_2 numeral_3_eq_3 kind_is_eval
      x_in_message_eval)

subsection \<open>Attribute access on an event\<close>

text \<open>
  C4. Attribute access on an event never fails. For a name \<open>k\<close> that is not a field of
  \<open>e\<close>, the hook \<^verbatim>\<open>Event.__getattr__\<close> yields \<^verbatim>\<open>None\<close>, and so does \<^verbatim>\<open>e.k\<close> when \<open>k\<close> is
  not the name of an attribute of the class (a method of \<^verbatim>\<open>Event\<close> or \<^verbatim>\<open>dict\<close>, or the
  property \<^verbatim>\<open>tags\<close>). \<^verbatim>\<open>e.tags\<close> is the empty list when the field \<^verbatim>\<open>tags\<close> is unset.
\<close>

theorem attribute_access_absent:
  "(\<exists>v. attribute_access e k = Inr v) \<and>
   (map_of e k = None \<longrightarrow> Event_getattr e k = VNone) \<and>
   (map_of e k = None \<and> k \<noteq> ''tags'' \<and> k \<notin> set class_attrs
      \<longrightarrow> attribute_access e k = Inr VNone) \<and>
   (map_of e ''tags'' = None \<longrightarrow> attribute_access e ''tags'' = Inr (VList []))"
  by (simp add: attribute_access_def Event_getattr_def dict_get_def tags_def)

lemma Event_init_field:
  "Event_init example_time [(''field'', VStr ''x'')] =
     [(''timestamp'', VTime example_time), (''field'', VStr ''x'')]"
  by (simp add: Event_init_def)

text \<open>
  The docstring examples: on \<^verbatim>\<open>Event(field='x')\<close>, \<^verbatim>\<open>.a\<close> is \<^verbatim>\<open>None\<close>, \<^verbatim>\<open>.tags\<close> is
  \<^verbatim>\<open>[]\<close> and \<^verbatim>\<open>.field\<close> is \<^verbatim>\<open>'x'\<close>.
\<close>

theorem attribute_access_absent_witness:
  "attribute_access (Event_init example_time [(''field'', VStr ''x'')]) ''a'' = Inr VNone \<and>
   attribute_access (Event_init example_time [(''field'', VStr ''x'')]) ''tags'' = Inr (VList []) \<and>
   attribute_access (Event_init example_time [(''field'', VStr ''x'')]) ''field'' = Inr (VStr ''x'')"
proof -
  let ?e = "Event_init example_time [(''field'', VStr ''x'')]"
  have m: "map_of ?e ''a'' = None" "map_of ?e ''tags'' = None"
    by (simp_all add: Event_init_field)
  have n: "''a'' \<noteq> ''tags''" "''a'' \<notin> set class_attrs"
    by (simp_all add: class_attrs_def event_methods_def dict_methods_def)
  from attribute_access_absent[of ?e "''a''"] m n
  have a: "attribute_access ?e ''a'' = Inr VNone"
    and t: "attribute_access ?e ''tags'' = Inr (VList [])" by simp_all
  have f: "attribute_access ?e ''field'' = Inr (VStr ''x'')"
    by (simp add: Event_init_field attribute_access_def Event_getattr_def dict_get_def
        class_attrs_def event_methods_def dict_methods_def)
  from a t f show ?thesis by simp
qed

text \<open>
  A name that is not a field and yet does not read as \<^verbatim>\<open>None\<close>: on a fresh event,
  \<^verbatim>\<open>e.format\<close> is the bound method \<^verbatim>\<open>Event.format\<close> and \<^verbatim>\<open>e.keys\<close> the bound method
  \<^verbatim>\<open>dict.keys\<close>; the hook is never asked.
\<close>

theorem attribute_access_counterexample:
  "map_of (Event_init example_time []) ''format'' = None \<and>
   attribute_access (Event_init example_time []) ''format'' = Inr (VAttr ''format'') \<and>
   attribute_access (Event_init example_time []) ''keys'' = Inr (VAttr ''keys'')"
  by (simp add: Event_init_def attribute_access_def class_attr_value_def class_attrs_def
      event_methods_def dict_methods_def)

subsection \<open>The event view and attribute access\<close>

lemma hasattr_event: "hasattr e k"
  by (simp add: hasattr_def attribute_access_def)

lemma method_names_class_attrs:
  "k \<in> set method_names \<Longrightarrow>
   k \<in> set class_attrs \<and> k \<noteq> ''tags'' \<and> class_attr_value k = VAttr k"
  by (auto simp add: method_names_def class_attrs_def event_methods_def dict_methods_def
      class_attr_value_def)

text \<open>
  C10. The event view is attribute access: \<^verbatim>\<open>DefaultDictProxy(e)[k]\<close> equals \<^verbatim>\<open>e.k\<close> for
  every event and name, because \<^verbatim>\<open>hasattr(e, k)\<close> always holds (the \<^verbatim>\<open>else\<close> branch of
  \<^verbatim>\<open>__getitem__\<close> is never taken). A field named like a class attribute other than
  \<^verbatim>\<open>tags\<close> is shadowed: the view yields the object of the class, for a method name the
  bound method, whatever the field holds. The property \<^verbatim>\<open>tags\<close> is different: the view
  yields \<^verbatim>\<open>e.tags\<close>, which is the stored value of the field \<^verbatim>\<open>tags\<close> whenever that is set,
  and the empty list otherwise.
\<close>

theorem proxy_is_attribute_access:
  "proxy_getitem e k = attribute_access e k \<and>
   hasattr e k \<and>
   (k \<in> set class_attrs \<and> k \<noteq> ''tags'' \<longrightarrow> proxy_getitem e k = Inr (class_attr_value k)) \<and>
   (k \<in> set method_names \<longrightarrow> proxy_getitem e k = Inr (VAttr k)) \<and>
   proxy_getitem e ''tags'' = Inr (tags e) \<and>
   (map_of e ''tags'' = Some v \<longrightarrow> proxy_getitem e ''tags'' = Inr v) \<and>
   (map_of e ''tags'' = None \<longrightarrow> proxy_getitem e ''tags'' = Inr (VList []))"
proof -
  have A: "proxy_getitem e k = attribute_access e k"
    by (simp add: proxy_getitem_def hasattr_event)
  have B: "k \<in> set class_attrs \<and> k \<noteq> ''tags'' \<longrightarrow>
      proxy_getitem e k = Inr (class_attr_value k)"
    by (simp add: proxy_getitem_def hasattr_event attribute_access_def)
  have C: "k \<in> set method_names \<longrightarrow> proxy_getitem e k = Inr (VAttr k)"
    using method_names_class_attrs[of k]
    by (auto simp add: proxy_getitem_def hasattr_event attribute_access_def)
  have D: "proxy_getitem e ''tags'' = Inr (tags e)"
    by (simp add: proxy_getitem_def hasattr_event attribute_access_def)
  have E: "map_of e ''tags'' = Some v \<longrightarrow> proxy_getitem e ''tags'' = Inr v"
    by (simp add: proxy_getitem_def hasattr_event attribute_access_def tags_def dict_get_def)
  have F: "map_of e ''tags'' = None \<longrightarrow> proxy_getitem e ''tags'' = Inr (VList [])"
    by (simp add: proxy_getitem_def hasattr_event attribute_access_def tags_def dict_get_def)
  from A hasattr_event[of e k] B C D E F show ?thesis by (intro conjI)
qed

text \<open>
  An event with fields \<^verbatim>\<open>keys\<close> and \<^verbatim>\<open>tags\<close>: the view shows the method for the first and
  the stored list for the second.
\<close>

theorem proxy_is_attribute_access_witness:
  "proxy_getitem [(''keys'', VInt 1), (''tags'', VList [VStr ''a''])] ''keys'' =
     Inr (VAttr ''keys'') \<and>
   proxy_getitem [(''keys'', VInt 1), (''tags'', VList [VStr ''a''])] ''tags'' =
     Inr (VList [VStr ''a'']) \<and>
   proxy_getitem [(''keys'', VInt 1)] ''tags'' = Inr (VList [])"
proof -
  let ?e = "[(''keys'', VInt 1), (''tags'', VList [VStr ''a''])]"
  let ?e' = "[(''keys'', VInt 1)]"
  have k: "''keys'' \<in> set method_names" by (simp add: method_names_def)
  have t: "map_of ?e ''tags'' = Some (VList [VStr ''a''])" by simp
  have n: "map_of ?e' ''tags'' = None" by simp
  note T = proxy_is_attribute_access[of ?e "''keys''" "VList [VStr ''a'']"]
  note T' = proxy_is_attribute_access[of ?e' "''keys''" "VList [VStr ''a'']"]
  from T k have a: "proxy_getitem ?e ''keys'' = Inr (VAttr ''keys'')" by blast
  from T t have b: "proxy_getitem ?e ''tags'' = Inr (VList [VStr ''a''])" by blast
  from T' n have c: "proxy_getitem ?e' ''tags'' = Inr (VList [])" by blast
  from a b c show ?thesis by blast
qed

text \<open>
  The stored value of a field named \<^verbatim>\<open>tags\<close> is visible to conditions: it is what the
  view returns under that name.
\<close>

theorem proxy_tags_counterexample:
  "map_of (Event_init example_time [(''tags'', VList [VStr ''db''])]) ''tags'' =
     Some (VList [VStr ''db'']) \<and>
   proxy_getitem (Event_init example_time [(''tags'', VList [VStr ''db''])]) ''tags'' =
     Inr (VList [VStr ''db''])"
  by (simp add: Event_init_def proxy_getitem_def hasattr_def attribute_access_def tags_def
      dict_get_def)

text \<open>
  Attribute access on the view itself is not item access: \<^verbatim>\<open>.d\<close> is the wrapped event,
  whatever a field \<^verbatim>\<open>d\<close> holds; a name that is not the view's own goes through the hook
  and so equals item access.
\<close>

lemma proxy_attribute_access_cases:
  "proxy_attribute_access e ''d'' = Wrapped e \<and>
   (k \<notin> set proxy_own_names \<longrightarrow> proxy_attribute_access e k = Hook (proxy_getitem e k))"
  by (auto simp add: proxy_attribute_access_def proxy_getattr_def proxy_own_names_def)

subsection \<open>Boolean words in condition strings\<close>

lemma boolean_word_not_attr:
  "w \<in> {''True'', ''False''} \<Longrightarrow> w \<noteq> ''tags'' \<and> w \<notin> set class_attrs"
  by (auto simp add: class_attrs_def event_methods_def dict_methods_def)

lemma lookup_name_plain:
  "k \<noteq> ''tags'' \<Longrightarrow> k \<notin> set class_attrs \<Longrightarrow> lookup_name ev k = Inr (dict_get ev k VNone)"
  by (simp add: lookup_name_def proxy_getitem_def hasattr_def attribute_access_def
      Event_getattr_def)

text \<open>
  C8. In a condition string the words \<^verbatim>\<open>True\<close> and \<^verbatim>\<open>False\<close> are names (as Python 2
  compiles them), and the view answers every name: the condition of an \<^verbatim>\<open>If\<close> or a
  \<^verbatim>\<open>Switch\<close> case configured with such a string evaluates to the event's field of that
  name, or to \<^verbatim>\<open>None\<close> when the event has none. So on an event without such a field both
  conditions are false, and an \<^verbatim>\<open>If\<close> on \<^verbatim>\<open>True\<close> passes the event through.
\<close>

theorem boolean_words_resolve_through_view:
  "w \<in> {''True'', ''False''} \<and> compile_src w = Inr (EName w) \<longrightarrow>
     make_condition compile_src (CondStr w) = Inr (\<lambda>ev. (eval_expr (EName w) ev, ev)) \<and>
     If_config compile_src (CondStr w) body =
       Inr (If QNone QNone (\<lambda>ev. (eval_expr (EName w) ev, ev)) (Sequence QNone QNone body)) \<and>
     Switch_call compile_src cases (CondStr w) body =
       Inr (cases @ [(\<lambda>ev. (eval_expr (EName w) ev, ev), Sequence QNone QNone body)]) \<and>
     eval_expr (EName w) ev = Inr (dict_get ev w VNone) \<and>
     (map_of ev w = None \<longrightarrow>
        eval_expr (EName w) ev = Inr VNone \<and> \<not> truthy VNone \<and>
        If_process (\<lambda>ev. (eval_expr (EName w) ev, ev)) br ev qs = (Inr True, ev, qs))"
proof (intro impI)
  assume h: "w \<in> {''True'', ''False''} \<and> compile_src w = Inr (EName w)"
  from h boolean_word_not_attr[of w] have n: "w \<noteq> ''tags''" "w \<notin> set class_attrs"
    by blast+
  have ev: "\<And>ev. eval_expr (EName w) ev = Inr (dict_get ev w VNone)"
    using n by (simp add: lookup_name_plain)
  from h have mc: "make_condition compile_src (CondStr w) =
      Inr (\<lambda>ev. (eval_expr (EName w) ev, ev))"
    by (simp add: make_condition_def)
  show "make_condition compile_src (CondStr w) = Inr (\<lambda>ev. (eval_expr (EName w) ev, ev)) \<and>
     If_config compile_src (CondStr w) body =
       Inr (If QNone QNone (\<lambda>ev. (eval_expr (EName w) ev, ev)) (Sequence QNone QNone body)) \<and>
     Switch_call compile_src cases (CondStr w) body =
       Inr (cases @ [(\<lambda>ev. (eval_expr (EName w) ev, ev), Sequence QNone QNone body)]) \<and>
     eval_expr (EName w) ev = Inr (dict_get ev w VNone) \<and>
     (map_of ev w = None \<longrightarrow>
        eval_expr (EName w) ev = Inr VNone \<and> \<not> truthy VNone \<and>
        If_process (\<lambda>ev. (eval_expr (EName w) ev, ev)) br ev qs = (Inr True, ev, qs))"
    using mc ev by (simp add: If_config_def Switch_call_def If_process_def dict_get_def)
qed

lemma compile_identifier_True: "compile_identifier ''True'' = Inr (EName ''True'')"
  by (simp add: compile_identifier_def is_identifier_def py_keywords_def)

lemma compile_identifier_False: "compile_identifier ''False'' = Inr (EName ''False'')"
  by (simp add: compile_identifier_def is_identifier_def py_keywords_def)

text \<open>
  A fresh event under the condition string \<^verbatim>\<open>True\<close>: the value is \<^verbatim>\<open>None\<close> and
  \<^verbatim>\<open>If.process\<close> returns \<^verbatim>\<open>True\<close> without touching a queue.
\<close>

theorem boolean_words_resolve_through_view_witness:
  "eval_expr (EName ''True'') [(''timestamp'', VTime example_time)] = Inr VNone \<and>
   If_process (\<lambda>ev. (eval_expr (EName ''True'') ev, ev)) (Sequence (Q 1) (Q 0) [])
     [(''timestamp'', VTime example_time)] (\<lambda>n. []) =
     (Inr True, [(''timestamp'', VTime example_time)], (\<lambda>n. []))"
proof -
  let ?ev = "[(''timestamp'', VTime example_time)]"
  have w: "''True'' \<in> {''True'', ''False''}" by simp
  have m: "map_of ?ev ''True'' = None" by simp
  note T = boolean_words_resolve_through_view[where w="''True''" and compile_src=compile_identifier
      and ev="?ev" and br="Sequence (Q 1) (Q 0) []" and qs="\<lambda>n. []"]
  from T w compile_identifier_True m show ?thesis by blast
qed

text \<open>
  The condition string \<^verbatim>\<open>True\<close>, configured and evaluated on a fresh event, is not true:
  it is \<^verbatim>\<open>None\<close>.
\<close>

theorem boolean_literal_counterexample:
  "evaluate_condition compile_identifier (CondStr ''True'') (Event_init example_time []) =
     (Inr VNone, Event_init example_time []) \<and> \<not> truthy VNone"
  by (simp add: evaluate_condition_def make_condition_def compile_identifier_True
      lookup_name_def proxy_getitem_def hasattr_def attribute_access_def Event_getattr_def
      dict_get_def Event_init_def class_attrs_def event_methods_def dict_methods_def)

subsection \<open>The default case of a Switch\<close>

lemma Switch_process_after_default:
  "Switch_process (pre @ (always_true, br) # post) e qs =
   Switch_process (pre @ [(always_true, br)]) e qs"
proof (induction pre arbitrary: e)
  case Nil
  show ?case by (simp add: always_true_def split: prod.splits option.splits)
next
  case (Cons a pre)
  obtain c b where a: "a = (c, b)" by (cases a)
  show ?case using Cons.IH a by (simp split: prod.splits sum.splits option.splits)
qed

lemma Switch_register_compiles:
  "list_all (registration_compiles compile_src) regs \<Longrightarrow>
   \<exists>cases'. Switch_register compile_src cases regs = Inr cases' \<and>
            length cases' = length cases + length regs"
proof (induction regs arbitrary: cases)
  case Nil
  then show ?case by simp
next
  case (Cons r regs)
  show ?case
  proof (cases r)
    case (Case cond body)
    from Cons.prems Case obtain c where c: "make_condition compile_src cond = Inr c"
      by (cases cond) (auto simp add: make_condition_def split: sum.splits)
    from Cons.prems have "list_all (registration_compiles compile_src) regs" by simp
    from Cons.IH[OF this, of "cases @ [(c, Sequence QNone QNone body)]"]
    show ?thesis using Case c by (simp add: Switch_call_def)
  next
    case (Default body)
    from Cons.prems have "list_all (registration_compiles compile_src) regs" by simp
    from Cons.IH[OF this, of "cases @ [(always_true, Sequence QNone QNone body)]"]
    show ?thesis using Default
      by (simp add: Switch_default_def Switch_call_def make_condition_def)
  qed
qed

text \<open>
  C7. \<^verbatim>\<open>Switch.default\<close> registers an ordinary case whose condition is always true, at the
  position where it is written, and never fails. Configuring a \<^verbatim>\<open>Switch\<close> fails only when the
  compiler rejects a condition string: with every string accepted, any order of cases and
  defaults yields a \<^verbatim>\<open>Switch\<close> with one case per registration. Routing stays first-match, so
  the cases registered after a default are never reached.
\<close>

theorem default_is_an_ordinary_case:
  "Switch_default compile_src cases body =
     Inr (cases @ [(always_true, Sequence QNone QNone body)]) \<and>
   (list_all (registration_compiles compile_src) regs \<longrightarrow>
      (\<exists>cases'. Switch_config compile_src regs = Inr (Switch QNone QNone cases') \<and>
                length cases' = length regs)) \<and>
   Switch_process (pre @ (always_true, br) # post) e qs =
     Switch_process (pre @ [(always_true, br)]) e qs"
proof (intro conjI impI)
  show "Switch_default compile_src cases body =
     Inr (cases @ [(always_true, Sequence QNone QNone body)])"
    by (simp add: Switch_default_def Switch_call_def make_condition_def)
next
  assume "list_all (registration_compiles compile_src) regs"
  from Switch_register_compiles[OF this, of "[]"]
  show "\<exists>cases'. Switch_config compile_src regs = Inr (Switch QNone QNone cases') \<and>
                length cases' = length regs"
    by (auto simp add: Switch_config_def)
next
  show "Switch_process (pre @ (always_true, br) # post) e qs =
     Switch_process (pre @ [(always_true, br)]) e qs"
    by (rule Switch_process_after_default)
qed

text \<open>
  A default registered first, before a case: the configuration succeeds and is a
  \<^verbatim>\<open>Switch\<close> with the always-true case in front.
\<close>

theorem default_first_counterexample:
  "Switch_config compile_identifier [Default [], Case (CondFun (kind_is ''A'')) []] =
     Inr (Switch QNone QNone
            [(always_true, Sequence QNone QNone []), (kind_is ''A'', Sequence QNone QNone [])])"
  by (simp add: Switch_config_def Switch_default_def Switch_call_def make_condition_def)

text \<open>
  The same configuration, and its routing once wired: an event of kind A goes to the
  default's branch (queue 1), not to the branch of \<^verbatim>\<open>kind == "A"\<close> (queue 2).
\<close>

theorem default_is_an_ordinary_case_witness:
  "Switch_config compile_identifier [Default [], Case (CondFun (kind_is ''A'')) [Simple QNone QNone]] =
     Inr (Switch QNone QNone
            [(always_true, Sequence QNone QNone []),
             (kind_is ''A'', Sequence QNone QNone [Simple QNone QNone])]) \<and>
   Switch_process
     [(always_true, Sequence (Q 1) (Q 0) []), (kind_is ''A'', Sequence (Q 2) (Q 0) [])]
     [(''kind'', VStr ''A'')] (\<lambda>n. []) =
     (Inr False, [(''kind'', VStr ''A'')], (\<lambda>n. [])(1 := [[(''kind'', VStr ''A'')]]))"
proof -
  let ?regs = "[Default [], Case (CondFun (kind_is ''A'')) [Simple QNone QNone]]"
  have c: "list_all (registration_compiles compile_identifier) ?regs" by simp
  note T = default_is_an_ordinary_case[where compile_src=compile_identifier and regs="?regs"
      and pre="[]" and br="Sequence (Q 1) (Q 0) []"
      and post="[(kind_is ''A'', Sequence (Q 2) (Q 0) [])]"
      and e="[(''kind'', VStr ''A'')]" and qs="\<lambda>n. []" and cases="[]" and body="[]"]
  from T c obtain cases' where
    "Switch_config compile_identifier ?regs = Inr (Switch QNone QNone cases')" by blast
  then have g1: "Switch_config compile_identifier ?regs =
     Inr (Switch QNone QNone
            [(always_true, Sequence QNone QNone []),
             (kind_is ''A'', Sequence QNone QNone [Simple QNone QNone])])"
    by (simp add: Switch_config_def Switch_default_def Switch_call_def make_condition_def)
  from T have "Switch_process
     [(always_true, Sequence (Q 1) (Q 0) []), (kind_is ''A'', Sequence (Q 2) (Q 0) [])]
     [(''kind'', VStr ''A'')] (\<lambda>n. []) =
     Switch_process [(always_true, Sequence (Q 1) (Q 0) [])] [(''kind'', VStr ''A'')] (\<lambda>n. [])"
    by simp
  then have g2: "Switch_process
     [(always_true, Sequence (Q 1) (Q 0) []), (kind_is ''A'', Sequence (Q 2) (Q 0) [])]
     [(''kind'', VStr ''A'')] (\<lambda>n. []) =
     (Inr False, [(''kind'', VStr ''A'')], (\<lambda>n. [])(1 := [[(''kind'', VStr ''A'')]]))"
    by (simp add: always_true_def)
  from g1 g2 show ?thesis by simp
qed

subsection \<open>Routing and the event\<close>

lemma Switch_process_read_only:
  "\<forall>cb \<in> set cases. \<forall>ev. snd (fst cb ev) = ev \<Longrightarrow>
   fst (snd (Switch_process cases e qs)) = e \<and>
   (fst (Switch_process cases e qs) = Inr False \<longrightarrow>
      (\<exists>cb \<in> set cases. put (input_of (snd cb)) e qs = (None, snd (snd (Switch_process cases e qs))))) \<and>
   (fst (Switch_process cases e qs) = Inr True \<longrightarrow> snd (snd (Switch_process cases e qs)) = qs)"
proof (induction cases)
  case Nil
  show ?case by simp
next
  case (Cons a cases)
  obtain c br where a: "a = (c, br)" by (cases a)
  obtain r e' where ce: "c e = (r, e')" by (cases "c e")
  from Cons.prems a have "snd (c e) = e" by simp
  with ce have e': "e' = e" by simp
  from Cons.prems have IH: "fst (snd (Switch_process cases e qs)) = e \<and>
   (fst (Switch_process cases e qs) = Inr False \<longrightarrow>
      (\<exists>cb \<in> set cases. put (input_of (snd cb)) e qs = (None, snd (snd (Switch_process cases e qs))))) \<and>
   (fst (Switch_process cases e qs) = Inr True \<longrightarrow> snd (snd (Switch_process cases e qs)) = qs)"
    using Cons.IH by simp
  show ?case
  proof (cases r)
    case (Inl err)
    then show ?thesis using a ce e' by simp
  next
    case (Inr v)
    show ?thesis
    proof (cases "truthy v")
      case True
      obtain po qs' where p: "put (input_of br) e qs = (po, qs')" by (cases "put (input_of br) e qs")
      show ?thesis using a ce e' Inr True p by (cases po) auto
    next
      case False
      then show ?thesis using a ce e' Inr IH by auto
    qed
  qed
qed

lemma make_condition_string_read_only:
  "make_condition compile_src (CondStr s) = Inr c \<Longrightarrow> snd (c ev) = ev"
  by (auto simp add: make_condition_def split: sum.splits)

lemma If_process_read_only:
  "\<forall>ev. snd (c ev) = ev \<Longrightarrow>
   fst (snd (If_process c br e qs)) = e \<and>
   (fst (If_process c br e qs) = Inr False \<longrightarrow>
      put (input_of br) e qs = (None, snd (snd (If_process c br e qs)))) \<and>
   (fst (If_process c br e qs) = Inr True \<longrightarrow> snd (snd (If_process c br e qs)) = qs)"
proof -
  assume ro: "\<forall>ev. snd (c ev) = ev"
  obtain r e' where ce: "c e = (r, e')" by (cases "c e")
  from ro ce have e': "e' = e" by (metis snd_conv)
  obtain po qs' where p: "put (input_of br) e qs = (po, qs')"
    by (cases "put (input_of br) e qs")
  show ?thesis
    using ce e' p by (cases r; cases po) (auto simp add: If_process_def split: if_splits)
qed

text \<open>
  C9. \<^verbatim>\<open>Switch.process\<close> and \<^verbatim>\<open>If.process\<close> write nothing to the event themselves. When
  the conditions leave the event as it is, the event after the call is the event before
  it, the branch that accepts it receives exactly that event, and a pass-through changes
  no queue. A condition configured from a string leaves the event as it is (the
  expressions modelled here hold no call), and so does the default's \<^verbatim>\<open>lambda x: True\<close>.
\<close>

theorem routing_leaves_event_to_conditions:
  "((\<forall>cb \<in> set cases. \<forall>ev. snd (fst cb ev) = ev) \<longrightarrow>
      fst (snd (Switch_process cases e qs)) = e \<and>
      (fst (Switch_process cases e qs) = Inr False \<longrightarrow>
         (\<exists>cb \<in> set cases.
            put (input_of (snd cb)) e qs = (None, snd (snd (Switch_process cases e qs))))) \<and>
      (fst (Switch_process cases e qs) = Inr True \<longrightarrow>
         snd (snd (Switch_process cases e qs)) = qs)) \<and>
   ((\<forall>ev. snd (c ev) = ev) \<longrightarrow>
      fst (snd (If_process c br e qs)) = e \<and>
      (fst (If_process c br e qs) = Inr False \<longrightarrow>
         put (input_of br) e qs = (None, snd (snd (If_process c br e qs)))) \<and>
      (fst (If_process c br e qs) = Inr True \<longrightarrow> snd (snd (If_process c br e qs)) = qs)) \<and>
   (make_condition compile_src (CondStr s) = Inr c' \<longrightarrow> snd (c' e) = e) \<and>
   snd (always_true e) = e"
proof -
  have A: "(\<forall>cb \<in> set cases. \<forall>ev. snd (fst cb ev) = ev) \<longrightarrow>
      fst (snd (Switch_process cases e qs)) = e \<and>
      (fst (Switch_process cases e qs) = Inr False \<longrightarrow>
         (\<exists>cb \<in> set cases.
            put (input_of (snd cb)) e qs = (None, snd (snd (Switch_process cases e qs))))) \<and>
      (fst (Switch_process cases e qs) = Inr True \<longrightarrow>
         snd (snd (Switch_process cases e qs)) = qs)"
    using Switch_process_read_only[of cases e qs] by (rule impI)
  have B: "(\<forall>ev. snd (c ev) = ev) \<longrightarrow>
      fst (snd (If_process c br e qs)) = e \<and>
      (fst (If_process c br e qs) = Inr False \<longrightarrow>
         put (input_of br) e qs = (None, snd (snd (If_process c br e qs)))) \<and>
      (fst (If_process c br e qs) = Inr True \<longrightarrow> snd (snd (If_process c br e qs)) = qs)"
    using If_process_read_only[of c br e qs] by (rule impI)
  have C: "make_condition compile_src (CondStr s) = Inr c' \<longrightarrow> snd (c' e) = e"
    using make_condition_string_read_only[of compile_src s c' e] by (rule impI)
  have D: "snd (always_true e) = e" by (simp add: always_true_def)
  from A B C D show ?thesis by (intro conjI)
qed

lemma kind_is_read_only: "snd (kind_is s ev) = ev"
  by (simp add: kind_is_def)

text \<open>
  The cases \<^verbatim>\<open>kind == "A"\<close> and \<^verbatim>\<open>kind == "B"\<close> and an \<^verbatim>\<open>If\<close> on \<^verbatim>\<open>kind == "A"\<close>: the
  event comes back as it went in.
\<close>

theorem routing_leaves_event_to_conditions_witness:
  "fst (snd (Switch_process
     [(kind_is ''A'', Sequence (Q 1) (Q 0) []), (kind_is ''B'', Sequence (Q 2) (Q 0) [])]
     [(''kind'', VStr ''B'')] (\<lambda>n. []))) = [(''kind'', VStr ''B'')] \<and>
   fst (snd (If_process (kind_is ''A'') (Sequence (Q 1) (Q 0) []) [(''kind'', VStr ''A'')]
     (\<lambda>n. []))) = [(''kind'', VStr ''A'')]"
proof -
  let ?cases = "[(kind_is ''A'', Sequence (Q 1) (Q 0) []), (kind_is ''B'', Sequence (Q 2) (Q 0) [])]"
  have ro: "\<forall>cb \<in> set ?cases. \<forall>ev. snd (fst cb ev) = ev"
    by (simp add: kind_is_read_only)
  have ro': "\<forall>ev. snd (kind_is ''A'' ev) = ev" by (simp add: kind_is_read_only)
  from routing_leaves_event_to_conditions[where cases="?cases" and e="[(''kind'', VStr ''B'')]"
      and qs="\<lambda>n. []"] ro
  have g1: "fst (snd (Switch_process ?cases [(''kind'', VStr ''B'')] (\<lambda>n. []))) =
      [(''kind'', VStr ''B'')]" by blast
  from routing_leaves_event_to_conditions[where c="kind_is ''A''" and e="[(''kind'', VStr ''A'')]"
      and qs="\<lambda>n. []" and br="Sequence (Q 1) (Q 0) []"] ro'
  have g2: "fst (snd (If_process (kind_is ''A'') (Sequence (Q 1) (Q 0) [])
      [(''kind'', VStr ''A'')] (\<lambda>n. []))) = [(''kind'', VStr ''A'')]" by blast
  from g1 g2 show ?thesis by blast
qed

text \<open>
  A condition that tags: the view hands out \<^verbatim>\<open>add_tag\<close>, the condition calls it, and
  \<^verbatim>\<open>Switch.process\<close> routes an event that now carries the tag \<^verbatim>\<open>seen\<close>.
\<close>

theorem routing_mutation_counterexample:
  "Switch_process [(tag_then_accept, Sequence (Q 1) (Q 0) [])] [(''kind'', VStr ''A'')] (\<lambda>n. []) =
     (Inr False, [(''kind'', VStr ''A''), (''tags'', VList [VStr ''seen''])],
      (\<lambda>n. [])(1 := [[(''kind'', VStr ''A''), (''tags'', VList [VStr ''seen''])]])) \<and>
   proxy_getattr [(''kind'', VStr ''A'')] ''add_tag'' = Inr (VAttr ''add_tag'')"
  by (simp add: tag_then_accept_def add_tag_def proxy_getattr_def proxy_getitem_def hasattr_def
      attribute_access_def class_attr_value_def class_attrs_def event_methods_def)

subsection \<open>What setup records and returns\<close>

lemma SimpleStage_setup_not_None: "SimpleStage_setup i n = (i', n') \<Longrightarrow> i' \<noteq> QNone"
  by (auto simp add: SimpleStage_setup_def split: if_splits)

lemma stage_setup_result:
  "stage_setup st q n = (r, st', n') \<Longrightarrow>
     output_of st' = q \<and>
     (returns_input st \<longrightarrow> r = input_of st' \<and> r \<noteq> QNone) \<and>
     (is_Fanin st \<longrightarrow> r = QNone \<and> input_of st' = input_of st)"
  by (cases st) (auto split: prod.splits dest: SimpleStage_setup_not_None)

text \<open>
  C2. \<^verbatim>\<open>setup(q)\<close> of every kind of stage records \<open>q\<close> as the stage's output. For a
  \<^verbatim>\<open>SimpleStage\<close> (a leaf, a \<^verbatim>\<open>Switch\<close>, an \<^verbatim>\<open>If\<close>) and for a \<^verbatim>\<open>Fanout\<close> the value returned
  is the stage's input queue, and it is a queue. \<^verbatim>\<open>Fanin.setup\<close> returns \<^verbatim>\<open>None\<close> and
  assigns no input. (What \<^verbatim>\<open>Sequence.setup\<close> returns is not part of this statement.)
\<close>

theorem setup_records_output:
  "stage_setup st q n = (r, st', n') \<longrightarrow>
     output_of st' = q \<and>
     (returns_input st \<longrightarrow> r = input_of st' \<and> r \<noteq> QNone) \<and>
     (is_Fanin st \<longrightarrow> r = QNone \<and> input_of st' = input_of st)"
  using stage_setup_result[of st q n r st' n'] by (rule impI)

text \<open>
  A \<^verbatim>\<open>Switch\<close> with one case holding one leaf, set up with output queue 0: the leaf gets
  queue 1, the \<^verbatim>\<open>Switch\<close> gets queue 2 and returns it.
\<close>

theorem setup_records_output_witness:
  "stage_setup (Switch QNone QNone [(kind_is ''A'', Sequence QNone QNone [Simple QNone QNone])])
     (Q 0) 1 =
     (Q 2, Switch (Q 2) (Q 0) [(kind_is ''A'', Sequence (Q 1) (Q 0) [Simple (Q 1) (Q 0)])], 3) \<and>
   output_of (Switch (Q 2) (Q 0) [(kind_is ''A'', Sequence (Q 1) (Q 0) [Simple (Q 1) (Q 0)])]) = Q 0 \<and>
   input_of (Switch (Q 2) (Q 0) [(kind_is ''A'', Sequence (Q 1) (Q 0) [Simple (Q 1) (Q 0)])]) = Q 2"
proof -
  let ?st = "Switch QNone QNone [(kind_is ''A'', Sequence QNone QNone [Simple QNone QNone])]"
  let ?st' = "Switch (Q 2) (Q 0) [(kind_is ''A'', Sequence (Q 1) (Q 0) [Simple (Q 1) (Q 0)])]"
  have ev: "stage_setup ?st (Q 0) 1 = (Q 2, ?st', 3)"
    by (simp add: SimpleStage_setup_def numeral_2_eq_2 numeral_3_eq_3)
  have ri: "returns_input ?st" by simp
  from setup_records_output[of ?st "Q 0" 1 "Q 2" ?st' 3] ev ri
  have "output_of ?st' = Q 0 \<and> Q 2 = input_of ?st'" by blast
  with ev show ?thesis by simp
qed

text \<open>
  \<^verbatim>\<open>Fanin.setup\<close> and \<^verbatim>\<open>Sequence.setup\<close> return \<^verbatim>\<open>None\<close>; the \<^verbatim>\<open>Sequence\<close> does so although
  its input is queue 1.
\<close>

theorem setup_returns_None_counterexample:
  "stage_setup (Fanin QNone QNone [Simple QNone QNone]) (Q 0) 1 =
     (QNone, Fanin QNone (Q 0) [Simple (Q 1) (Q 0)], 2) \<and>
   stage_setup (Sequence QNone QNone [Simple QNone QNone]) (Q 0) 1 =
     (QNone, Sequence (Q 1) (Q 0) [Simple (Q 1) (Q 0)], 2)"
  by (simp add: SimpleStage_setup_def numeral_2_eq_2)

subsection \<open>Wiring of a Sequence\<close>

text \<open>
  Where every child returns its input from \<^verbatim>\<open>setup\<close>, the loop of \<^verbatim>\<open>Sequence.setup\<close> wires
  as intended: each child's output is the input of the next, the last child's output is
  \<open>q\<close>, and the value left in \<^verbatim>\<open>q\<close> (the sequence's input) is the first child's input.
\<close>

lemma setup_reversed_wiring:
  "list_all returns_input ss \<Longrightarrow> setup_reversed ss q n = (r, ss', n') \<Longrightarrow>
   length ss' = length ss \<and>
   r = (case ss' of [] \<Rightarrow> q | s # rest \<Rightarrow> input_of s) \<and>
   (\<forall>i < length ss'.
      output_of (ss' ! i) = (if Suc i < length ss' then input_of (ss' ! Suc i) else q))"
proof (induction ss arbitrary: r ss' n')
  case Nil
  then show ?case by simp
next
  case (Cons s ss)
  obtain q1 ss1 n1 where t: "setup_reversed ss q n = (q1, ss1, n1)"
    by (cases "setup_reversed ss q n")
  obtain r2 s2 n2 where h: "stage_setup s q1 n1 = (r2, s2, n2)"
    by (cases "stage_setup s q1 n1")
  from Cons.prems(2) t h have res: "r = r2" "ss' = s2 # ss1" "n' = n2" by simp_all
  from Cons.prems(1) have ri: "returns_input s" and all: "list_all returns_input ss" by simp_all
  from Cons.IH[OF all t] have IH: "length ss1 = length ss"
    "q1 = (case ss1 of [] \<Rightarrow> q | s # rest \<Rightarrow> input_of s)"
    "\<forall>i < length ss1.
      output_of (ss1 ! i) = (if Suc i < length ss1 then input_of (ss1 ! Suc i) else q)"
    by simp_all
  from stage_setup_result[OF h] ri have s2: "output_of s2 = q1" "r2 = input_of s2" by simp_all
  have "\<forall>i < length (s2 # ss1).
      output_of ((s2 # ss1) ! i) =
        (if Suc i < length (s2 # ss1) then input_of ((s2 # ss1) ! Suc i) else q)"
  proof (intro allI impI)
    fix i assume i: "i < length (s2 # ss1)"
    show "output_of ((s2 # ss1) ! i) =
        (if Suc i < length (s2 # ss1) then input_of ((s2 # ss1) ! Suc i) else q)"
    proof (cases i)
      case 0
      then show ?thesis using s2 IH(2) by (cases ss1) simp_all
    next
      case (Suc j)
      then show ?thesis using i IH(3) by simp
    qed
  qed
  then show ?case using res IH(1) s2 by simp
qed

text \<open>
  C3. A \<^verbatim>\<open>Sequence\<close> nested in a \<^verbatim>\<open>Sequence\<close>. As the first child: the inner one's input
  is queue 2, the outer one's input is \<^verbatim>\<open>None\<close>. As the last child: the leaf before it is
  given \<^verbatim>\<open>None\<close> as its output, not the inner one's input, queue 1. Both because
  \<^verbatim>\<open>Sequence.setup\<close> returns nothing.
\<close>

theorem nested_Sequence_setup:
  "stage_setup
     (Sequence QNone QNone [Sequence QNone QNone [Simple QNone QNone], Simple QNone QNone])
     (Q 0) 1 =
     (QNone,
      Sequence QNone (Q 0) [Sequence (Q 2) (Q 1) [Simple (Q 2) (Q 1)], Simple (Q 1) (Q 0)], 3) \<and>
   stage_setup
     (Sequence QNone QNone [Simple QNone QNone, Sequence QNone QNone [Simple QNone QNone]])
     (Q 0) 1 =
     (QNone,
      Sequence (Q 2) (Q 0) [Simple (Q 2) QNone, Sequence (Q 1) (Q 0) [Simple (Q 1) (Q 0)]], 3)"
  by (simp add: SimpleStage_setup_def numeral_2_eq_2 numeral_3_eq_3)

subsection \<open>Formatting with missing names\<close>









subsection \<open>The timestamp in JSON\<close>








lemma matches_Nil: "matches [] []"
  by (simp add: matches_def)















end
